theory Spec2Isabelle
  imports Main
begin

section \<open>JavaScript strings and numbers, as far as the reminder code uses them\<close>

text \<open>
  Strings are character lists; a character stands for one code unit in the Latin-1 range.
  The white space that \<^verbatim>\<open>String.prototype.trim\<close> and \<^verbatim>\<open>parseInt\<close> strip is, in that
  range, TAB, LF, VT, FF, CR, SPACE and NBSP.
\<close>

definition isWhiteSpace :: "char \<Rightarrow> bool" where
  "isWhiteSpace c = ((of_char c :: nat) \<in> {9, 10, 11, 12, 13, 32, 160})"

definition isDigit :: "char \<Rightarrow> bool" where
  "isDigit c = (48 \<le> (of_char c :: nat) \<and> (of_char c :: nat) \<le> 57)"

definition digitVal :: "char \<Rightarrow> nat" where
  "digitVal c = of_char c - 48"

definition digitsValue :: "string \<Rightarrow> nat" where
  "digitsValue ds = foldl (\<lambda>a c. 10 * a + digitVal c) 0 ds"

text \<open>\<^verbatim>\<open>s.trim()\<close>: white space removed at both ends.\<close>

definition trim :: "string \<Rightarrow> string" where
  "trim s = rev (dropWhile isWhiteSpace (rev (dropWhile isWhiteSpace s)))"

text \<open>\<^verbatim>\<open>s.startsWith(p)\<close>.\<close>

definition startsWith :: "string \<Rightarrow> string \<Rightarrow> bool" where
  "startsWith s p = (take (length p) s = p)"

text \<open>
  \<^verbatim>\<open>s.lastIndexOf(c)\<close> for a one-character search string: the greatest index holding
  \<open>c\<close>, or \<open>-1\<close>. The scan carries the index \<open>i\<close> of the head and the last hit so far.
\<close>

fun lastIndexFrom :: "char \<Rightarrow> string \<Rightarrow> int \<Rightarrow> int \<Rightarrow> int" where
  "lastIndexFrom c [] i found = found"
| "lastIndexFrom c (x # xs) i found = lastIndexFrom c xs (i + 1) (if x = c then i else found)"

definition lastIndexOf :: "string \<Rightarrow> char \<Rightarrow> int" where
  "lastIndexOf s c = lastIndexFrom c s 0 (-1)"

text \<open>
  \<^verbatim>\<open>s.substring(a, b)\<close>: both indices are clamped to \<open>[0, length s]\<close> and swapped when
  \<open>a > b\<close>; \<^verbatim>\<open>s.substring(a)\<close> runs to the end of the string.
\<close>

definition clampIndex :: "string \<Rightarrow> int \<Rightarrow> nat" where
  "clampIndex s i = (if i < 0 then 0 else min (nat i) (length s))"

definition substring :: "string \<Rightarrow> int \<Rightarrow> int \<Rightarrow> string" where
  "substring s a b =
     (let a' = clampIndex s a; b' = clampIndex s b;
          lo = min a' b'; hi = max a' b'
      in take (hi - lo) (drop lo s))"

definition substringFrom :: "string \<Rightarrow> int \<Rightarrow> string" where
  "substringFrom s a = drop (clampIndex s a) s"

text \<open>
  \<^verbatim>\<open>parseInt(s, 10)\<close>: leading white space is skipped, one sign is accepted, then the
  longest run of decimal digits is read and everything after it is ignored. No digit at
  all gives \<^verbatim>\<open>NaN\<close>, which is \<open>None\<close> here. The value is an unbounded integer: the
  rounding of a double beyond \<open>2^53\<close> is outside the model.
\<close>

definition parseInt :: "string \<Rightarrow> int option" where
  "parseInt s =
     (let s1 = dropWhile isWhiteSpace s;
          sgn_rest = (case s1 of
                        [] \<Rightarrow> (1, s1)
                      | c # cs \<Rightarrow> if c = CHR ''-'' then (- 1, cs)
                                 else if c = CHR ''+'' then (1, cs) else (1, s1));
          ds = takeWhile isDigit (snd sgn_rest)
      in if ds = [] then None else Some (fst sgn_rest * int (digitsValue ds)))"

text \<open>
  Decimal rendering of an integer inside a template literal, \<^verbatim>\<open>`${n}`\<close>. JavaScript
  prints an integer this way as long as it is below \<open>10^21\<close>; epoch milliseconds are.
\<close>

definition digitChar :: "nat \<Rightarrow> char" where
  "digitChar d = char_of (48 + d)"

fun natToString :: "nat \<Rightarrow> string" where
  "natToString n = (if n < 10 then [digitChar n] else natToString (n div 10) @ [digitChar (n mod 10)])"

declare natToString.simps [simp del]

definition intToString :: "int \<Rightarrow> string" where
  "intToString i = (if i < 0 then CHR ''-'' # natToString (nat (- i)) else natToString (nat i))"

section \<open>The trigger key (background/service-worker.js, shared/alarms.js)\<close>

text \<open>
  \<^verbatim>\<open>parseAlarmName\<close> of the service worker. The result \<open>None\<close> is the source's
  \<^verbatim>\<open>null\<close>; a parsed key is the pair \<open>(reminderId, scheduledTime)\<close>.
\<close>

definition parseAlarmName :: "string \<Rightarrow> (string \<times> int) option" where
  "parseAlarmName alarmName =
     (if alarmName = [] \<or> \<not> startsWith alarmName ''reminder-'' then None
      else
        let lastDashIndex = lastIndexOf alarmName (CHR ''-'') in
        if lastDashIndex = - 1 \<or> lastDashIndex \<le> 8 then None
        else
          let timeString = substringFrom alarmName (lastDashIndex + 1) in
          case parseInt timeString of
            None \<Rightarrow> None
          | Some scheduledTime \<Rightarrow>
              if scheduledTime \<le> 0 then None
              else
                let reminderId = trim (substring alarmName 8 lastDashIndex) in
                if reminderId = [] then None
                else Some (reminderId, scheduledTime))"

section \<open>Reminder records\<close>

text \<open>
  A numeric field of a reminder object: absent (\<^verbatim>\<open>undefined\<close>), \<^verbatim>\<open>NaN\<close>, or an integer
  number of milliseconds. \<^verbatim>\<open>Number(x)\<close> sends an absent field to \<^verbatim>\<open>NaN\<close>; \<^verbatim>\<open>x || d\<close>
  replaces a falsy number (absent, \<^verbatim>\<open>NaN\<close>, zero) by \<open>d\<close>.
\<close>

datatype numval = Undefined | NaN | Num int

fun Number_js :: "numval \<Rightarrow> numval" where
  "Number_js Undefined = NaN"
| "Number_js NaN = NaN"
| "Number_js (Num n) = Num n"

fun truthy :: "numval \<Rightarrow> bool" where
  "truthy (Num n) = (n \<noteq> 0)"
| "truthy _ = False"

definition orElse :: "numval \<Rightarrow> int \<Rightarrow> numval" where
  "orElse x d = (if truthy x then x else Num d)"

text \<open>\<^verbatim>\<open>x <= n\<close> and \<^verbatim>\<open>x > n\<close> on a number: every comparison with \<^verbatim>\<open>NaN\<close> is false.\<close>

fun num_le :: "numval \<Rightarrow> int \<Rightarrow> bool" where
  "num_le (Num a) n = (a \<le> n)"
| "num_le _ n = False"

fun num_gt :: "numval \<Rightarrow> int \<Rightarrow> bool" where
  "num_gt (Num a) n = (a > n)"
| "num_gt _ n = False"

text \<open>A number inside a template literal.\<close>

fun numToString :: "numval \<Rightarrow> string" where
  "numToString Undefined = ''undefined''"
| "numToString NaN = ''NaN''"
| "numToString (Num n) = intToString n"

text \<open>
  The reminder object. The fields \<open>id_r\<close> and \<open>text_r\<close> are the source's \<open>id\<close> and
  \<open>text\<close>, strings of which the empty one is falsy. \<open>scheduledTime\<close> and \<open>createdAt\<close>
  hold a number or are absent; \<open>status\<close> and \<open>alarmName\<close> hold a string or are absent.
  \<open>alarmName\<close> stands for the fields that the store passes through untouched.
\<close>

record reminder =
  id_r :: string
  text_r :: string
  scheduledTime :: numval
  createdAt :: numval
  status :: "string option"
  alarmName :: "string option"

text \<open>A thrown \<^verbatim>\<open>Error(message)\<close>.\<close>

datatype error = Error string

section \<open>The persistence store (shared/storage.js)\<close>

text \<open>
  The model of \<^verbatim>\<open>chrome.storage.local\<close> is the value kept under the key
  \<^verbatim>\<open>"reminders"\<close>: \<open>None\<close> when the key is absent or does not hold an array. Reads and
  writes of the storage area themselves are taken not to fail. The clock reading
  \<^verbatim>\<open>Date.now()\<close> is the parameter \<open>now\<close>, one reading for one operation.
\<close>

type_synonym storage = "reminder list option"

definition getAllReminders :: "storage \<Rightarrow> reminder list" where
  "getAllReminders st = (case st of None \<Rightarrow> [] | Some rs \<Rightarrow> rs)"

definition getReminder :: "string \<Rightarrow> storage \<Rightarrow> reminder option" where
  "getReminder i st =
     (if i = [] then None else find (\<lambda>r. id_r r = i) (getAllReminders st))"

definition normalizeReminder :: "int \<Rightarrow> reminder \<Rightarrow> reminder" where
  "normalizeReminder now reminder =
     reminder\<lparr> scheduledTime := orElse (Number_js (scheduledTime reminder)) 0,
               createdAt := orElse (Number_js (createdAt reminder)) now,
               status := (case status reminder of
                            None \<Rightarrow> Some ''active''
                          | Some s \<Rightarrow> if s = [] then Some ''active'' else Some s) \<rparr>"

definition validStatuses :: "string list" where
  "validStatuses = [''active'', ''completed'', ''dismissed'']"

text \<open>
  \<^verbatim>\<open>validateReminder\<close>: the checks in the order of the source. The first one (the
  argument is an object) always passes for a value of the record type.
\<close>

definition validateReminder :: "int \<Rightarrow> reminder \<Rightarrow> error + unit" where
  "validateReminder now reminder =
     (if id_r reminder = [] then Inl (Error ''Reminder must have a valid ID'')
      else if text_r reminder = [] \<or> length (trim (text_r reminder)) = 0
        then Inl (Error ''Reminder text cannot be empty'')
      else
        let scheduledTime' = Number_js (scheduledTime reminder) in
        if \<not> truthy scheduledTime' \<or> num_le scheduledTime' now
          then Inl (Error ''Reminder must be scheduled for a future time'')
        else
          case status reminder of
            None \<Rightarrow> Inr ()
          | Some s \<Rightarrow>
              if s \<noteq> [] \<and> s \<notin> set validStatuses
                then Inl (Error (''Invalid status: '' @ s))
              else Inr ())"

text \<open>\<^verbatim>\<open>Array.prototype.findIndex\<close>: the first index satisfying \<open>P\<close>, or \<open>-1\<close>.\<close>

fun findIndex :: "('a \<Rightarrow> bool) \<Rightarrow> 'a list \<Rightarrow> int" where
  "findIndex P [] = - 1"
| "findIndex P (x # xs) =
     (if P x then 0 else (let i = findIndex P xs in if i < 0 then - 1 else i + 1))"

text \<open>
  Every store operation returns what the caller sees (an error or nothing) together with
  the storage value it leaves behind.
\<close>

definition saveReminder :: "int \<Rightarrow> reminder \<Rightarrow> storage \<Rightarrow> (error + unit) \<times> storage" where
  "saveReminder now reminder st =
     (case validateReminder now reminder of
        Inl e \<Rightarrow> (Inl e, st)
      | Inr _ \<Rightarrow>
          let normalizedReminder = normalizeReminder now reminder;
              reminders = getAllReminders st;
              existingIndex = findIndex (\<lambda>r. id_r r = id_r normalizedReminder) reminders
          in if existingIndex \<ge> 0
               then (Inr (), Some (reminders[nat existingIndex := normalizedReminder]))
               else (Inr (), Some (reminders @ [normalizedReminder])))"

definition deleteReminder :: "string \<Rightarrow> storage \<Rightarrow> (error + unit) \<times> storage" where
  "deleteReminder i st =
     (if i = [] then (Inr (), st)
      else (Inr (), Some (filter (\<lambda>r. id_r r \<noteq> i) (getAllReminders st))))"

definition updateReminderStatus ::
    "string \<Rightarrow> string \<Rightarrow> int \<Rightarrow> storage \<Rightarrow> (error + unit) \<times> storage" where
  "updateReminderStatus i s now st =
     (if i = [] \<or> s = [] then (Inr (), st)
      else if s \<notin> set validStatuses then (Inl (Error (''Invalid status: '' @ s)), st)
      else
        case getReminder i st of
          None \<Rightarrow> (Inr (), st)
        | Some reminder \<Rightarrow> saveReminder now (reminder\<lparr>status := Some s\<rparr>) st)"


section \<open>The browser state\<close>

text \<open>
  What the handlers read and write: the storage value, the registered alarms (name to
  firing time), the desktop notifications created so far (identifier and message), and
  the variables and on-screen messages of the options page.
\<close>

datatype toast = Toast string string | ToastWithUndo string

record world =
  storage_local :: storage
  alarms :: "string \<rightharpoonup> numval"
  notifications :: "(string \<times> string) list"
  reminders :: "reminder list"
  lastDismissedReminder :: "reminder option"
  undoTimeout :: bool
  messages :: "toast list"

text \<open>
  What the notification service answers: the permission level (or an exception), and
  whether creating a notification under a given identifier succeeds.
\<close>

record notifier =
  permissionLevel :: "error + string"
  createSucceeds :: "string \<Rightarrow> bool"

section \<open>The background service worker (background/service-worker.js)\<close>

text \<open>
  The worker's own \<^verbatim>\<open>updateReminderStatus\<close>. The record found is an element of the
  array just read, so assigning its status changes the array in place; the array is then
  written back. Whatever is thrown inside is caught and logged, so the only result is the
  storage value.
\<close>

definition updateReminderStatus_sw :: "string \<Rightarrow> string \<Rightarrow> storage \<Rightarrow> storage" where
  "updateReminderStatus_sw i s st =
     (let rs = getAllReminders st in
      case find (\<lambda>r. id_r r = i) rs of
        None \<Rightarrow> st
      | Some reminder \<Rightarrow>
          let index = findIndex (\<lambda>r. id_r r = i) rs in
          if index \<ge> 0 then Some (rs[nat index := reminder\<lparr>status := Some s\<rparr>])
          else st)"

definition withinTolerance :: "int \<Rightarrow> reminder \<Rightarrow> bool" where
  "withinTolerance alarmTime r =
     (case Number_js (scheduledTime r) of
        Num rTime \<Rightarrow> \<bar>rTime - alarmTime\<bar> < 1000
      | _ \<Rightarrow> False)"

definition findReminder :: "reminder list \<Rightarrow> string \<Rightarrow> int \<Rightarrow> reminder option" where
  "findReminder rs reminderId alarmTime =
     (case find (\<lambda>r. id_r r = reminderId) rs of
        Some reminder \<Rightarrow> Some reminder
      | None \<Rightarrow> find (withinTolerance alarmTime) rs)"

text \<open>\<^verbatim>\<open>showNotification\<close>: the notifications it manages to create.\<close>

definition showNotification :: "notifier \<Rightarrow> reminder \<Rightarrow> (string \<times> string) list" where
  "showNotification env reminder =
     (let notificationId = ''reminder-'' @ id_r reminder;
          fallback = (if createSucceeds env (''fallback-'' @ notificationId)
                      then [(''fallback-'' @ notificationId, text_r reminder)] else [])
      in case permissionLevel env of
           Inl e \<Rightarrow> fallback
         | Inr permission \<Rightarrow>
             if permission = ''denied'' then []
             else if createSucceeds env notificationId
               then [(notificationId, text_r reminder)]
             else fallback)"

text \<open>The listener of \<^verbatim>\<open>chrome.alarms.onAlarm\<close>, applied to the name of the alarm.\<close>

definition onAlarm :: "notifier \<Rightarrow> string \<Rightarrow> world \<Rightarrow> world" where
  "onAlarm env name w =
     (if name = [] \<or> \<not> startsWith name ''reminder-'' then w
      else
        case parseAlarmName name of
          None \<Rightarrow> w
        | Some (reminderId, scheduledTime') \<Rightarrow>
            let rs = getAllReminders (storage_local w) in
            if length rs = 0 then w
            else
              case findReminder rs reminderId scheduledTime' of
                None \<Rightarrow> w
              | Some reminder \<Rightarrow>
                  if status reminder \<noteq> Some ''active'' then w
                  else
                    w\<lparr> notifications := notifications w @ showNotification env reminder,
                       storage_local :=
                         updateReminderStatus_sw (id_r reminder) ''completed'' (storage_local w) \<rparr>)"

section \<open>Alarm scheduling (shared/alarms.js)\<close>

definition createAlarmName :: "reminder \<Rightarrow> string" where
  "createAlarmName reminder =
     ''reminder-'' @ id_r reminder @ ''-'' @ numToString (scheduledTime reminder)"

definition scheduleReminder ::
    "int \<Rightarrow> reminder \<Rightarrow> (string \<rightharpoonup> numval) \<Rightarrow> (error + unit) \<times> (string \<rightharpoonup> numval)" where
  "scheduleReminder now reminder al =
     (if id_r reminder = [] \<or> \<not> truthy (scheduledTime reminder)
        then (Inl (Error ''Invalid reminder object''), al)
      else
        let alarmName' = createAlarmName reminder;
            scheduledTime' = Number_js (scheduledTime reminder)
        in if num_le scheduledTime' now
             then (Inl (Error ''Cannot schedule alarm for past time''), al)
             else (Inr (), al(alarmName' \<mapsto> scheduledTime')))"

definition cancelReminderById :: "string \<Rightarrow> numval \<Rightarrow> (string \<rightharpoonup> numval) \<Rightarrow> (string \<rightharpoonup> numval)" where
  "cancelReminderById i t al =
     (if i = [] \<or> \<not> truthy t then al
      else al((''reminder-'' @ i @ ''-'' @ numToString t) := None))"

section \<open>Dismiss and undo on the options page\<close>

text \<open>
  \<^verbatim>\<open>loadReminders\<close> re-reads the collection into the page's variable; the rendering is
  left out. \<open>undoTimeout\<close> tells whether the five-second timer is armed; when it fires,
  it forgets the remembered record.
\<close>

definition loadReminders :: "world \<Rightarrow> world" where
  "loadReminders w = w\<lparr>reminders := getAllReminders (storage_local w)\<rparr>"

definition undoTimerFires :: "world \<Rightarrow> world" where
  "undoTimerFires w = w\<lparr>lastDismissedReminder := None\<rparr>"

definition handleDismiss :: "int \<Rightarrow> string \<Rightarrow> world \<Rightarrow> world" where
  "handleDismiss now i w =
     (case find (\<lambda>r. id_r r = i) (reminders w) of
        None \<Rightarrow> w\<lparr>messages := messages w @ [Toast ''Reminder not found'' ''error'']\<rparr>
      | Some reminder \<Rightarrow>
          let w1 = w\<lparr> lastDismissedReminder := Some reminder, undoTimeout := False,
                       alarms := cancelReminderById (id_r reminder) (scheduledTime reminder) (alarms w) \<rparr>;
              upd = updateReminderStatus i ''dismissed'' now (storage_local w1);
              w2 = w1\<lparr>storage_local := snd upd\<rparr>
          in case fst upd of
               Inl e \<Rightarrow> w2\<lparr>messages := messages w2 @ [Toast ''Unable to dismiss reminder'' ''error'']\<rparr>
             | Inr _ \<Rightarrow>
                 (loadReminders (w2\<lparr>messages := messages w2 @ [ToastWithUndo ''Reminder dismissed'']\<rparr>))
                   \<lparr>undoTimeout := True\<rparr>)"

definition undoDone :: "world \<Rightarrow> world" where
  "undoDone w =
     loadReminders (w\<lparr> lastDismissedReminder := None, undoTimeout := False,
                        messages := messages w @ [Toast ''Reminder restored'' ''success''] \<rparr>)"

definition undoFailed :: "world \<Rightarrow> world" where
  "undoFailed w = w\<lparr>messages := messages w @ [Toast ''Unable to restore reminder'' ''error'']\<rparr>"

definition handleUndoDismiss :: "int \<Rightarrow> world \<Rightarrow> world" where
  "handleUndoDismiss now w =
     (case lastDismissedReminder w of
        None \<Rightarrow> w
      | Some reminder \<Rightarrow>
          let upd = updateReminderStatus (id_r reminder) ''active'' now (storage_local w);
              w1 = w\<lparr>storage_local := snd upd\<rparr>
          in case fst upd of
               Inl e \<Rightarrow> undoFailed w1
             | Inr _ \<Rightarrow>
                 if num_gt (scheduledTime reminder) now then
                   let reminder' = reminder\<lparr>alarmName :=
                          Some (''reminder-'' @ id_r reminder @ ''-'' @ numToString (scheduledTime reminder))\<rparr>;
                       w2 = w1\<lparr>lastDismissedReminder := Some reminder'\<rparr>;
                       sch = scheduleReminder now reminder' (alarms w2)
                   in case fst sch of
                        Inl e \<Rightarrow> undoFailed w2
                      | Inr _ \<Rightarrow> undoDone (w2\<lparr>alarms := snd sch\<rparr>)
                 else undoDone w1)"


section \<open>The normalization as the specification words it\<close>

text \<open>
  The specification describes the saved record as the input with \<open>scheduledTime\<close> and
  \<open>createdAt\<close> coerced to numbers and a missing \<open>status\<close> defaulted to active. This is
  that description, taken literally, for comparison with \<open>normalizeReminder\<close>.
\<close>

definition coercedAsSpecified :: "reminder \<Rightarrow> reminder" where
  "coercedAsSpecified r =
     r\<lparr> scheduledTime := Number_js (scheduledTime r),
        createdAt := Number_js (createdAt r),
        status := (case status r of None \<Rightarrow> Some ''active'' | Some s \<Rightarrow> Some s) \<rparr>"

section \<open>Sample records and states\<close>

definition tea :: reminder where
  "tea = \<lparr> id_r = ''a'', text_r = ''tea'', scheduledTime = Num 5000, createdAt = Num 1000,
           status = Some ''active'', alarmName = Some ''reminder-a-5000'' \<rparr>"

definition walk :: reminder where
  "walk = \<lparr> id_r = ''b'', text_r = ''walk'', scheduledTime = Num 5400, createdAt = Num 1000,
            status = Some ''active'', alarmName = Some ''reminder-b-5400'' \<rparr>"

definition nap :: reminder where
  "nap = \<lparr> id_r = ''c'', text_r = ''nap'', scheduledTime = Num 9000, createdAt = Num 1000,
           status = Some ''dismissed'', alarmName = Some ''reminder-c-9000'' \<rparr>"

definition page :: "reminder list \<Rightarrow> world" where
  "page rs = \<lparr> storage_local = Some rs, alarms = Map.empty, notifications = [],
               reminders = rs, lastDismissedReminder = None, undoTimeout = False,
               messages = [] \<rparr>"

definition granted :: notifier where
  "granted = \<lparr> permissionLevel = Inr ''granted'', createSucceeds = (\<lambda>n. True) \<rparr>"

definition armed :: world where
  "armed = (page [tea, walk])\<lparr>alarms :=
      [''reminder-a-5000'' \<mapsto> Num 5000, ''reminder-b-5400'' \<mapsto> Num 5400]\<rparr>"

section \<open>Facts about \<open>findIndex\<close> and \<open>find\<close>\<close>

lemma findIndex_neg_iff: "findIndex P xs < 0 \<longleftrightarrow> (\<forall>x\<in>set xs. \<not> P x)"
  by (induction xs) (auto simp: Let_def)

lemma findIndex_lt: "0 \<le> findIndex P xs \<Longrightarrow> nat (findIndex P xs) < length xs"
  by (induction xs) (auto simp: Let_def nat_add_distrib split: if_splits)

lemma findIndex_nth: "0 \<le> findIndex P xs \<Longrightarrow> P (xs ! nat (findIndex P xs))"
  by (induction xs) (auto simp: Let_def nat_add_distrib split: if_splits)

lemma findIndex_first: "j < nat (findIndex P xs) \<Longrightarrow> \<not> P (xs ! j)"
proof (induction xs arbitrary: j)
  case Nil
  then show ?case by simp
next
  case (Cons x xs)
  then show ?case
    by (cases j) (auto simp: Let_def nat_add_distrib split: if_splits)
qed

lemma find_findIndex:
  "find P xs = Some x \<Longrightarrow> 0 \<le> findIndex P xs \<and> xs ! nat (findIndex P xs) = x"
  by (induction xs) (auto simp: Let_def nat_add_distrib split: if_splits)

lemma find_update_first:
  "0 \<le> findIndex P xs \<Longrightarrow> P y \<Longrightarrow> find P (xs[nat (findIndex P xs) := y]) = Some y"
  by (induction xs) (auto simp: Let_def nat_add_distrib split: if_splits)

lemma find_append_new:
  "findIndex P xs < 0 \<Longrightarrow> P y \<Longrightarrow> find P (xs @ [y]) = Some y"
  by (induction xs) (auto simp: Let_def split: if_splits)

lemma find_id_present: "i \<in> id_r ` set rs \<Longrightarrow> \<exists>r. find (\<lambda>r. id_r r = i) rs = Some r"
  by (induction rs) auto

lemma map_id_update_same:
  "k < length rs \<Longrightarrow> id_r y = id_r (rs ! k) \<Longrightarrow> map id_r (rs[k := y]) = map id_r rs"
  by (simp add: map_update list_update_same_conv)

section \<open>Facts about the store operations\<close>

lemma getAllReminders_Some [simp]: "getAllReminders (Some rs) = rs"
  by (simp add: getAllReminders_def)

lemma getAllReminders_None [simp]: "getAllReminders None = []"
  by (simp add: getAllReminders_def)

lemma normalizeReminder_id [simp]: "id_r (normalizeReminder now r) = id_r r"
  by (simp add: normalizeReminder_def)

lemma validateReminder_past:
  "num_le (scheduledTime r) now \<Longrightarrow> \<exists>e. validateReminder now r = Inl e"
  by (cases "scheduledTime r") (auto simp: validateReminder_def Let_def split: option.splits)

lemma validateReminder_blank:
  "trim (text_r r) = [] \<Longrightarrow> \<exists>e. validateReminder now r = Inl e"
  by (auto simp: validateReminder_def Let_def split: option.splits)

lemma saveReminder_invalid:
  "validateReminder now r = Inl e \<Longrightarrow> saveReminder now r st = (Inl e, st)"
  by (simp add: saveReminder_def)

lemma saveReminder_valid:
  "validateReminder now r = Inr () \<Longrightarrow>
   saveReminder now r st =
     (Inr (), Some (let rs = getAllReminders st; k = findIndex (\<lambda>x. id_r x = id_r r) rs
                    in if 0 \<le> k then rs[nat k := normalizeReminder now r]
                       else rs @ [normalizeReminder now r]))"
  by (simp add: saveReminder_def Let_def)

lemmas sample_defs = tea_def walk_def nap_def page_def granted_def

lemmas string_defs = startsWith_def lastIndexOf_def substringFrom_def substring_def
  clampIndex_def parseInt_def trim_def isWhiteSpace_def isDigit_def digitsValue_def digitVal_def

lemmas store_defs = saveReminder_def validateReminder_def normalizeReminder_def
  updateReminderStatus_def getReminder_def deleteReminder_def validStatuses_def orElse_def

section \<open>Rejected saves\<close>

text \<open>
  Claim C6. A record whose scheduled time is not after the current time, or whose text is
  empty once trimmed, is refused by \<open>saveReminder\<close>: the caller gets an error and the
  storage value is the one from before the call.
\<close>

theorem saveReminder_rejects_unchanged:
  "num_le (scheduledTime r) now \<or> trim (text_r r) = [] \<Longrightarrow>
   \<exists>e. saveReminder now r st = (Inl e, st)"
  using validateReminder_past [of r now] validateReminder_blank [of r now]
  by (auto simp: saveReminder_invalid)

theorem saveReminder_rejects_unchanged_witness:
  "(num_le (scheduledTime tea) 6000 \<or> trim (text_r tea) = []) \<and>
   (\<exists>e. saveReminder 6000 tea (Some [walk]) = (Inl e, Some [walk]))"
  using saveReminder_rejects_unchanged [of tea 6000 "Some [walk]"]
  by (simp add: tea_def)

section \<open>Late and duplicate fires\<close>

text \<open>
  Claim C4. When the key of a fired alarm parses and the lookup resolves to a record whose
  status is completed or dismissed, the handler returns the state it was given: no
  notification is created and the stored collection is untouched.
\<close>

theorem onAlarm_inactive_noop:
  "parseAlarmName name = Some (rid, t) \<Longrightarrow>
   findReminder (getAllReminders (storage_local w)) rid t = Some r \<Longrightarrow>
   status r = Some ''completed'' \<or> status r = Some ''dismissed'' \<Longrightarrow>
   onAlarm env name w = w"
  by (auto simp: onAlarm_def Let_def)

theorem onAlarm_inactive_noop_witness:
  "parseAlarmName ''reminder-c-9000'' = Some (''-c'', 9000) \<and>
   findReminder (getAllReminders (storage_local (page [tea, nap]))) ''-c'' 9000 = Some nap \<and>
   (status nap = Some ''completed'' \<or> status nap = Some ''dismissed'') \<and>
   onAlarm granted ''reminder-c-9000'' (page [tea, nap]) = page [tea, nap]"
proof -
  have p: "parseAlarmName ''reminder-c-9000'' = Some (''-c'', 9000)"
    by (simp add: parseAlarmName_def string_defs)
  have f: "findReminder (getAllReminders (storage_local (page [tea, nap]))) ''-c'' 9000 = Some nap"
    by (simp add: findReminder_def withinTolerance_def sample_defs)
  have s: "status nap = Some ''completed'' \<or> status nap = Some ''dismissed''"
    by (simp add: nap_def)
  show ?thesis using onAlarm_inactive_noop [OF p f s, of granted] p f s by simp
qed


section \<open>One record per id\<close>

lemma saveReminder_distinct:
  assumes "distinct (map id_r (getAllReminders st))"
  shows "distinct (map id_r (getAllReminders (snd (saveReminder now r st))))"
proof (cases "validateReminder now r")
  case (Inl e)
  then show ?thesis using assms by (simp add: saveReminder_invalid)
next
  case (Inr u)
  let ?rs = "getAllReminders st"
  let ?P = "\<lambda>x. id_r x = id_r r"
  let ?k = "findIndex ?P ?rs"
  show ?thesis
  proof (cases "0 \<le> ?k")
    case True
    then have "nat ?k < length ?rs" and "id_r (?rs ! nat ?k) = id_r r"
      using findIndex_lt [of ?P ?rs] findIndex_nth [of ?P ?rs] by auto
    then have "map id_r (?rs[nat ?k := normalizeReminder now r]) = map id_r ?rs"
      by (simp add: map_id_update_same)
    then show ?thesis using Inr True assms by (simp add: saveReminder_valid Let_def)
  next
    case False
    then have "id_r r \<notin> id_r ` set ?rs"
      using findIndex_neg_iff [of ?P ?rs] by auto
    then show ?thesis using Inr False assms by (simp add: saveReminder_valid Let_def)
  qed
qed

lemma deleteReminder_distinct:
  assumes "distinct (map id_r (getAllReminders st))"
  shows "distinct (map id_r (getAllReminders (snd (deleteReminder i st))))"
  using assms by (simp add: deleteReminder_def distinct_map_filter)

lemma updateReminderStatus_distinct:
  assumes "distinct (map id_r (getAllReminders st))"
  shows "distinct (map id_r (getAllReminders (snd (updateReminderStatus i s now st))))"
  using assms saveReminder_distinct [OF assms]
  by (simp add: updateReminderStatus_def split: option.splits)

lemma saveReminder_upsert:
  assumes v: "validateReminder now r = Inr ()"
  shows "if id_r r \<in> id_r ` set (getAllReminders st)
         then \<exists>k < length (getAllReminders st).
                id_r (getAllReminders st ! k) = id_r r \<and>
                snd (saveReminder now r st) = Some ((getAllReminders st)[k := normalizeReminder now r])
         else snd (saveReminder now r st) = Some (getAllReminders st @ [normalizeReminder now r])"
proof -
  let ?rs = "getAllReminders st"
  let ?P = "\<lambda>x. id_r x = id_r r"
  let ?k = "findIndex ?P ?rs"
  show ?thesis
  proof (cases "0 \<le> ?k")
    case True
    then have lt: "nat ?k < length ?rs" and idk: "id_r (?rs ! nat ?k) = id_r r"
      using findIndex_lt [of ?P ?rs] findIndex_nth [of ?P ?rs] by auto
    have "id_r r \<in> id_r ` set ?rs"
      using lt idk by (metis image_eqI nth_mem)
    moreover note lt idk
    moreover have "snd (saveReminder now r st) = Some (?rs[nat ?k := normalizeReminder now r])"
      using v True by (simp add: saveReminder_valid Let_def)
    ultimately show ?thesis by auto
  next
    case False
    then have "id_r r \<notin> id_r ` set ?rs"
      using findIndex_neg_iff [of ?P ?rs] by auto
    then show ?thesis using v False by (simp add: saveReminder_valid Let_def)
  qed
qed

text \<open>
  Claim C8. If no two stored records share an id, the same holds after \<open>saveReminder\<close>,
  \<open>deleteReminder\<close> and \<open>updateReminderStatus\<close>, whatever their arguments and whether
  they succeed or not. A valid save overwrites the record at the position of the id when
  the id is stored and appends the normalized record otherwise; after a delete no record
  carries the deleted id.
\<close>

theorem one_record_per_id_preserved:
  assumes "distinct (map id_r (getAllReminders st))"
  shows "distinct (map id_r (getAllReminders (snd (saveReminder now r st)))) \<and>
         distinct (map id_r (getAllReminders (snd (deleteReminder i st)))) \<and>
         distinct (map id_r (getAllReminders (snd (updateReminderStatus i s now st)))) \<and>
         (validateReminder now r = Inr () \<longrightarrow>
            (if id_r r \<in> id_r ` set (getAllReminders st)
             then \<exists>k < length (getAllReminders st).
                    id_r (getAllReminders st ! k) = id_r r \<and>
                    snd (saveReminder now r st) =
                      Some ((getAllReminders st)[k := normalizeReminder now r])
             else snd (saveReminder now r st) =
                    Some (getAllReminders st @ [normalizeReminder now r]))) \<and>
         (i \<noteq> [] \<longrightarrow> i \<notin> id_r ` set (getAllReminders (snd (deleteReminder i st))))"
proof -
  have del: "i \<noteq> [] \<longrightarrow> i \<notin> id_r ` set (getAllReminders (snd (deleteReminder i st)))"
    by (auto simp: deleteReminder_def)
  show ?thesis
    using saveReminder_distinct [OF assms] deleteReminder_distinct [OF assms]
      updateReminderStatus_distinct [OF assms] saveReminder_upsert [of now r st] del
    by blast
qed

theorem one_record_per_id_preserved_witness:
  "distinct (map id_r (getAllReminders (Some [tea, walk]))) \<and>
   distinct (map id_r (getAllReminders
      (snd (saveReminder 2000 (tea\<lparr>text_r := ''coffee''\<rparr>) (Some [tea, walk]))))) \<and>
   distinct (map id_r (getAllReminders (snd (deleteReminder ''b'' (Some [tea, walk]))))) \<and>
   distinct (map id_r (getAllReminders
      (snd (updateReminderStatus ''b'' ''dismissed'' 2000 (Some [tea, walk]))))) \<and>
   snd (saveReminder 2000 (tea\<lparr>text_r := ''coffee''\<rparr>) (Some [tea, walk]))
     = Some [tea\<lparr>text_r := ''coffee''\<rparr>, walk] \<and>
   snd (saveReminder 2000 nap (Some [tea, walk])) = Some [tea, walk, nap] \<and>
   snd (deleteReminder ''b'' (Some [tea, walk])) = Some [tea]"
proof -
  have d: "distinct (map id_r (getAllReminders (Some [tea, walk])))"
    by (simp add: sample_defs)
  have e: "snd (saveReminder 2000 (tea\<lparr>text_r := ''coffee''\<rparr>) (Some [tea, walk]))
             = Some [tea\<lparr>text_r := ''coffee''\<rparr>, walk]"
    by (simp add: store_defs string_defs sample_defs)
  have f: "snd (saveReminder 2000 nap (Some [tea, walk])) = Some [tea, walk, nap]"
    by (simp add: store_defs string_defs sample_defs)
  have g: "snd (deleteReminder ''b'' (Some [tea, walk])) = Some [tea]"
    by (simp add: store_defs sample_defs)
  show ?thesis
    using one_record_per_id_preserved
      [OF d, of 2000 "tea\<lparr>text_r := ''coffee''\<rparr>" "''b''" "''dismissed''"] d e f g
    by simp
qed

section \<open>Save, then read back\<close>

lemma normalizeReminder_valid:
  assumes "validateReminder now r = Inr ()"
  shows "normalizeReminder now r =
     r\<lparr> scheduledTime := Number_js (scheduledTime r),
        createdAt := (if truthy (createdAt r) then Number_js (createdAt r) else Num now),
        status := (case status r of None \<Rightarrow> Some ''active''
                   | Some s \<Rightarrow> if s = [] then Some ''active'' else Some s) \<rparr>"
  using assms
  by (cases "scheduledTime r"; cases "createdAt r")
     (auto simp: validateReminder_def normalizeReminder_def orElse_def Let_def split: if_splits)

lemma getReminder_after_save:
  assumes "validateReminder now r = Inr ()"
  shows "getReminder (id_r r) (snd (saveReminder now r st)) = Some (normalizeReminder now r)"
proof -
  let ?rs = "getAllReminders st"
  let ?P = "\<lambda>x. id_r x = id_r r"
  have ne: "id_r r \<noteq> []" using assms by (auto simp: validateReminder_def split: if_splits)
  have P: "?P (normalizeReminder now r)" by simp
  show ?thesis
  proof (cases "0 \<le> findIndex ?P ?rs")
    case True
    then show ?thesis using assms ne find_update_first [OF True P]
      by (simp add: saveReminder_valid getReminder_def Let_def)
  next
    case False
    then have "findIndex ?P ?rs < 0" by simp
    from find_append_new [OF this P] show ?thesis using assms ne False
      by (simp add: saveReminder_valid getReminder_def Let_def)
  qed
qed

text \<open>
  Claim C7, as stated, fails twice. A valid record that carries no \<open>createdAt\<close> is read
  back with \<open>createdAt\<close> set to the time of the save, whereas coercing the absent field
  to a number gives \<^verbatim>\<open>NaN\<close>. A valid record whose \<open>status\<close> is the empty string,
  which is present and passes validation, is read back as active.
\<close>

theorem save_then_get_counterexample:
  "validateReminder 2000 (tea\<lparr>createdAt := Undefined\<rparr>) = Inr () \<and>
   getReminder ''a'' (snd (saveReminder 2000 (tea\<lparr>createdAt := Undefined\<rparr>) None))
     = Some (tea\<lparr>createdAt := Num 2000\<rparr>) \<and>
   coercedAsSpecified (tea\<lparr>createdAt := Undefined\<rparr>) = tea\<lparr>createdAt := NaN\<rparr> \<and>
   getReminder ''a'' (snd (saveReminder 2000 (tea\<lparr>createdAt := Undefined\<rparr>) None))
     \<noteq> Some (coercedAsSpecified (tea\<lparr>createdAt := Undefined\<rparr>)) \<and>
   validateReminder 2000 (tea\<lparr>status := Some []\<rparr>) = Inr () \<and>
   getReminder ''a'' (snd (saveReminder 2000 (tea\<lparr>status := Some []\<rparr>) None)) = Some tea \<and>
   coercedAsSpecified (tea\<lparr>status := Some []\<rparr>) = tea\<lparr>status := Some []\<rparr> \<and>
   getReminder ''a'' (snd (saveReminder 2000 (tea\<lparr>status := Some []\<rparr>) None))
     \<noteq> Some (coercedAsSpecified (tea\<lparr>status := Some []\<rparr>))"
  by (simp add: store_defs string_defs sample_defs coercedAsSpecified_def)

text \<open>
  Claim C7, amended. For a record that passes validation, saving it and then reading its
  id back gives the normalized record: the input with \<open>scheduledTime\<close> coerced to a
  number, \<open>createdAt\<close> coerced to a number when it is a non-zero number and set to the
  current time otherwise, \<open>status\<close> set to active when it is absent or empty, and every
  other field as it was.
\<close>

theorem save_then_get_normalized:
  assumes "validateReminder now r = Inr ()"
  shows "getReminder (id_r r) (snd (saveReminder now r st)) =
     Some (r\<lparr> scheduledTime := Number_js (scheduledTime r),
              createdAt := (if truthy (createdAt r) then Number_js (createdAt r) else Num now),
              status := (case status r of None \<Rightarrow> Some ''active''
                         | Some s \<Rightarrow> if s = [] then Some ''active'' else Some s) \<rparr>)"
  using getReminder_after_save [OF assms] normalizeReminder_valid [OF assms] by simp

theorem save_then_get_normalized_witness:
  "validateReminder 2000 (nap\<lparr>status := None, createdAt := Undefined\<rparr>) = Inr () \<and>
   getReminder ''c'' (snd (saveReminder 2000 (nap\<lparr>status := None, createdAt := Undefined\<rparr>)
       (Some [tea, walk])))
     = Some (nap\<lparr>status := Some ''active'', createdAt := Num 2000\<rparr>)"
proof -
  have v: "validateReminder 2000 (nap\<lparr>status := None, createdAt := Undefined\<rparr>) = Inr ()"
    by (simp add: store_defs string_defs sample_defs)
  show ?thesis
    using save_then_get_normalized [OF v, of "Some [tea, walk]"] v
    by (simp add: sample_defs)
qed


section \<open>Parsing a trigger key\<close>

lemma lastIndexFrom_absent: "c \<notin> set ys \<Longrightarrow> lastIndexFrom c ys j f = f"
  by (induction ys arbitrary: j) auto

lemma lastIndexFrom_split:
  "c \<notin> set ys \<Longrightarrow> lastIndexFrom c (xs @ c # ys) i f = i + int (length xs)"
  by (induction xs arbitrary: i f) (auto simp: lastIndexFrom_absent)

lemma lastIndexOf_key:
  assumes "CHR ''-'' \<notin> set seg"
  shows "lastIndexOf (''reminder-'' @ mid @ CHR ''-'' # seg) (CHR ''-'') = 9 + int (length mid)"
proof -
  have "lastIndexFrom (CHR ''-'') ((''reminder-'' @ mid) @ CHR ''-'' # seg) 0 (- 1)
          = 0 + int (length (''reminder-'' @ mid))"
    using assms by (rule lastIndexFrom_split)
  then show ?thesis by (simp add: lastIndexOf_def)
qed

lemma substringFrom_key:
  "substringFrom (''reminder-'' @ mid @ CHR ''-'' # seg) (9 + int (length mid) + 1) = seg"
proof -
  let ?pre = "''reminder-'' @ mid @ [CHR ''-'']"
  have len: "length ?pre = 10 + length mid" by simp
  have key: "''reminder-'' @ mid @ CHR ''-'' # seg = ?pre @ seg" by simp
  have "drop (10 + length mid) (?pre @ seg) = seg"
    using len by (metis append_eq_conv_conj)
  then have "drop (10 + length mid) (''reminder-'' @ mid @ CHR ''-'' # seg) = seg"
    using key by simp
  moreover have "clampIndex (''reminder-'' @ mid @ CHR ''-'' # seg) (9 + int (length mid) + 1)
                   = 10 + length mid"
    by (simp add: clampIndex_def nat_add_distrib)
  ultimately show ?thesis unfolding substringFrom_def by simp
qed

lemma substring_key:
  "substring (''reminder-'' @ mid @ CHR ''-'' # seg) 8 (9 + int (length mid)) = CHR ''-'' # mid"
  by (simp add: substring_def clampIndex_def Let_def nat_add_distrib min_def max_def)

lemma startsWith_key: "startsWith (''reminder-'' @ rest) ''reminder-''"
  by (simp add: startsWith_def)

lemma isDigit_plain:
  "isDigit c \<Longrightarrow> \<not> isWhiteSpace c \<and> c \<noteq> CHR ''-'' \<and> c \<noteq> CHR ''+''"
  by (auto simp: isDigit_def isWhiteSpace_def)

lemma parseInt_digits:
  assumes ne: "ds \<noteq> []" and dig: "\<forall>c\<in>set ds. isDigit c"
    and stop: "rest = [] \<or> \<not> isDigit (hd rest)"
  shows "parseInt (ds @ rest) = Some (int (digitsValue ds))"
proof -
  obtain d ds' where ds: "ds = d # ds'" using ne by (cases ds) auto
  have d: "isDigit d" using dig ds by simp
  have tw: "takeWhile isDigit (ds @ rest) = ds"
    using dig stop by (cases rest) (auto simp: takeWhile_append2 ds)
  have "takeWhile isDigit (d # ds' @ rest) = d # ds'" using tw ds by simp
  then show ?thesis using isDigit_plain [OF d] ne d
    by (simp add: parseInt_def ds Let_def)
qed

lemma trim_dash: "trim (CHR ''-'' # mid) \<noteq> []"
proof -
  have "CHR ''-'' \<in> set (rev mid @ [CHR ''-''])" by simp
  moreover have "\<not> isWhiteSpace (CHR ''-'')" by (simp add: isWhiteSpace_def)
  ultimately have "dropWhile isWhiteSpace (rev mid @ [CHR ''-'']) \<noteq> []"
    by (metis dropWhile_eq_Nil_conv)
  then show ?thesis by (simp add: trim_def isWhiteSpace_def)
qed

lemma trim_fixed_last:
  assumes "trim s = s" "s \<noteq> []"
  shows "\<not> isWhiteSpace (last s)"
proof -
  let ?ys = "dropWhile isWhiteSpace (rev (dropWhile isWhiteSpace s))"
  have "rev ?ys = s" using assms by (simp add: trim_def)
  then have ys: "?ys = rev s" by (metis rev_rev_ident)
  then have "?ys \<noteq> []" using assms by simp
  then have "\<not> isWhiteSpace (hd ?ys)" by (rule hd_dropWhile)
  then show ?thesis using ys assms by (simp add: hd_rev)
qed

lemma trim_dash_fixed:
  assumes "trim s = s" "s \<noteq> []"
  shows "trim (CHR ''-'' # s) = CHR ''-'' # s"
proof -
  have "\<not> isWhiteSpace (hd (rev s))" using trim_fixed_last [OF assms] assms by (simp add: hd_rev)
  moreover have "rev s \<noteq> []" using assms by simp
  ultimately have "dropWhile isWhiteSpace (rev s @ [CHR ''-'']) = rev s @ [CHR ''-'']"
    by (cases "rev s") auto
  then show ?thesis by (simp add: trim_def isWhiteSpace_def)
qed

lemma digitChar_props: "d < 10 \<Longrightarrow> isDigit (digitChar d) \<and> digitVal (digitChar d) = d"
  by (simp add: isDigit_def digitVal_def digitChar_def)

lemma digitsValue_snoc: "digitsValue (ds @ [c]) = 10 * digitsValue ds + digitVal c"
  by (simp add: digitsValue_def)

lemma natToString_props:
  "natToString n \<noteq> [] \<and> (\<forall>c\<in>set (natToString n). isDigit c) \<and> digitsValue (natToString n) = n"
proof (induction n rule: natToString.induct)
  case (1 n)
  show ?case
  proof (cases "n < 10")
    case True
    then show ?thesis
      using digitChar_props [of n]
      by (subst (1 2 3) natToString.simps) (simp add: digitsValue_def)
  next
    case False
    then have "n mod 10 < 10" by simp
    from digitChar_props [OF this] 1 [OF False] False show ?thesis
      by (subst (1 2 3) natToString.simps) (auto simp: digitsValue_snoc)
  qed
qed

lemma parseAlarmName_shape:
  assumes seg: "CHR ''-'' \<notin> set seg"
    and pi: "parseInt seg = Some n" and pos: "0 < n"
  shows "parseAlarmName (''reminder-'' @ mid @ CHR ''-'' # seg) = Some (trim (CHR ''-'' # mid), n)"
proof -
  let ?key = "''reminder-'' @ mid @ CHR ''-'' # seg"
  have sw: "startsWith ?key ''reminder-''" by (rule startsWith_key)
  have ne: "?key \<noteq> []" by simp
  have li: "lastIndexOf ?key (CHR ''-'') = 9 + int (length mid)"
    using seg by (rule lastIndexOf_key)
  have ts: "substringFrom ?key (9 + int (length mid) + 1) = seg" by (rule substringFrom_key)
  have idp: "substring ?key 8 (9 + int (length mid)) = CHR ''-'' # mid" by (rule substring_key)
  show ?thesis
    unfolding parseAlarmName_def
    using sw ne pi pos trim_dash [of mid]
    by (simp only: li ts idp Let_def) simp
qed

lemma digitChar_table:
  "digitChar 0 = CHR ''0''" "digitChar 1 = CHR ''1''" "digitChar 2 = CHR ''2''"
  "digitChar 3 = CHR ''3''" "digitChar 4 = CHR ''4''" "digitChar 5 = CHR ''5''"
  "digitChar 6 = CHR ''6''" "digitChar 7 = CHR ''7''" "digitChar 8 = CHR ''8''"
  "digitChar 9 = CHR ''9''" "digitChar (Suc 0) = CHR ''1''"
  by code_simp+

lemma intToString_123: "intToString 123 = ''123''"
  by (simp add: intToString_def natToString.simps digitChar_table)

lemma intToString_5000: "intToString 5000 = ''5000''"
  by (simp add: intToString_def natToString.simps digitChar_table)

text \<open>
  Claim C10. A key whose last hyphen-delimited segment starts with the digits of a positive
  integer and goes on with characters that are not digits is still parsed:
  \<open>parseAlarmName\<close> returns a result, and its scheduled time is the value of the leading
  digits. The id part returned is what stands from index 8 to the last hyphen, trimmed.
\<close>

theorem parseAlarmName_lenient:
  assumes "ds \<noteq> []" and "\<forall>c\<in>set ds. isDigit c" and "0 < digitsValue ds"
    and "rest \<noteq> []" and "\<not> isDigit (hd rest)" and "CHR ''-'' \<notin> set rest"
  shows "parseAlarmName (''reminder-'' @ mid @ ''-'' @ ds @ rest)
           = Some (trim (CHR ''-'' # mid), int (digitsValue ds))"
proof -
  have "CHR ''-'' \<notin> set ds" using assms(2) isDigit_plain by blast
  then have seg: "CHR ''-'' \<notin> set (ds @ rest)" using assms(6) by simp
  have pi: "parseInt (ds @ rest) = Some (int (digitsValue ds))"
    using assms(1,2,5) by (simp add: parseInt_digits)
  have pos: "0 < int (digitsValue ds)" using assms(3) by simp
  from parseAlarmName_shape [OF seg pi pos] show ?thesis by simp
qed

theorem parseAlarmName_lenient_witness:
  "''123'' \<noteq> [] \<and> list_all isDigit ''123'' \<and> 0 < digitsValue ''123'' \<and> ''abc'' \<noteq> [] \<and>
   \<not> isDigit (hd ''abc'') \<and> CHR ''-'' \<notin> set ''abc'' \<and>
   parseAlarmName ''reminder-my-id-123abc'' = Some (''-my-id'', 123)"
proof -
  have a: "\<forall>c\<in>set ''123''. isDigit c" by (simp add: isDigit_def)
  have b: "0 < digitsValue ''123''" by (simp add: string_defs)
  have c: "\<not> isDigit (hd ''abc'')" by (simp add: isDigit_def)
  have d: "CHR ''-'' \<notin> set ''abc''" by simp
  have e: "digitsValue ''123'' = 123" by (simp add: string_defs)
  have f: "trim ''-my-id'' = ''-my-id''" by (simp add: string_defs)
  show ?thesis
    using parseAlarmName_lenient [of "''123''" "''abc''" "''my-id''", OF _ a b _ c d] a b c d e f
    by (simp add: list_all_iff)
qed

text \<open>
  Claim C1 asks that the key \<^verbatim>\<open>"reminder-" + id + "-" + t\<close> parse back to the id and the
  time. The time does come back, but the id does not: \<open>parseAlarmName\<close> cuts the id from
  index 8, which is the hyphen that ends the nine-character prefix, so for every non-empty
  id that trimming leaves alone and every positive \<open>t\<close> the parsed id is the original id
  with a hyphen in front.
\<close>

theorem parseAlarmName_built_key:
  assumes "i \<noteq> []" and "trim i = i" and "0 < t"
  shows "parseAlarmName (''reminder-'' @ i @ ''-'' @ intToString t) = Some (CHR ''-'' # i, t)"
proof -
  let ?ds = "natToString (nat t)"
  have its: "intToString t = ?ds" using assms(3) by (simp add: intToString_def)
  have props: "?ds \<noteq> []" "\<forall>c\<in>set ?ds. isDigit c" "digitsValue ?ds = nat t"
    using natToString_props [of "nat t"] by auto
  have "CHR ''-'' \<notin> set ?ds" using props(2) isDigit_plain by blast
  then have seg: "CHR ''-'' \<notin> set (intToString t)" using its by simp
  have "parseInt (?ds @ []) = Some (int (digitsValue ?ds))"
    using props(1,2) by (intro parseInt_digits) auto
  then have pi: "parseInt (intToString t) = Some t" using props(3) assms(3) its by simp
  from parseAlarmName_shape [OF seg pi assms(3)] trim_dash_fixed [OF assms(2,1)]
  show ?thesis by simp
qed

theorem parseAlarmName_built_key_witness:
  "''abc'' \<noteq> [] \<and> trim ''abc'' = ''abc'' \<and> (0::int) < 123 \<and>
   parseAlarmName ''reminder-abc-123'' = Some (''-abc'', 123) \<and> ''-abc'' \<noteq> ''abc''"
proof -
  have t: "trim ''abc'' = ''abc''" by (simp add: string_defs)
  show ?thesis
    using parseAlarmName_built_key [of "''abc''" 123, OF _ t] t
    by (simp add: intToString_123)
qed


section \<open>Status updates\<close>

lemma status_update_refused_when_due:
  assumes g: "getReminder i st = Some r" and s: "s \<in> set validStatuses"
    and past: "num_le (scheduledTime r) now"
  shows "\<exists>e. updateReminderStatus i s now st = (Inl e, st)"
proof -
  have i: "i \<noteq> []" using g by (auto simp: getReminder_def split: if_splits)
  have s': "s \<noteq> []" using s by (auto simp: validStatuses_def)
  have "num_le (scheduledTime (r\<lparr>status := Some s\<rparr>)) now" using past by simp
  then obtain e where "validateReminder now (r\<lparr>status := Some s\<rparr>) = Inl e"
    using validateReminder_past by blast
  then have "saveReminder now (r\<lparr>status := Some s\<rparr>) st = (Inl e, st)"
    by (rule saveReminder_invalid)
  then show ?thesis using i s s' g by (simp add: updateReminderStatus_def)
qed

lemma updateReminderStatus_absent:
  assumes a: "i \<notin> id_r ` set (getAllReminders st)" and s: "s \<in> set validStatuses"
  shows "updateReminderStatus i s now st = (Inr (), st)"
proof -
  have "find (\<lambda>r. id_r r = i) (getAllReminders st) = None"
    using a by (auto simp: find_None_iff)
  then show ?thesis using s by (simp add: updateReminderStatus_def getReminder_def)
qed

lemma getReminder_id: "getReminder i st = Some r \<Longrightarrow> id_r r = i \<and> i \<noteq> []"
  by (auto simp: getReminder_def find_Some_iff split: if_splits)

text \<open>
  What does hold of \<open>updateReminderStatus\<close>: for an id that is not stored it changes
  nothing and reports nothing (\<open>updateReminderStatus_absent\<close>), and for a stored record
  that still passes validation it succeeds and the record read back has the new status.
\<close>

lemma updateReminderStatus_accepted:
  assumes g: "getReminder i st = Some r" and s: "s \<in> set validStatuses"
    and v: "validateReminder now (r\<lparr>status := Some s\<rparr>) = Inr ()"
  shows "fst (updateReminderStatus i s now st) = Inr () \<and>
         getReminder i (snd (updateReminderStatus i s now st))
           = Some (normalizeReminder now (r\<lparr>status := Some s\<rparr>)) \<and>
         status (normalizeReminder now (r\<lparr>status := Some s\<rparr>)) = Some s"
proof -
  have i: "id_r r = i" "i \<noteq> []" using getReminder_id [OF g] by auto
  have s': "s \<noteq> []" using s by (auto simp: validStatuses_def)
  have u: "updateReminderStatus i s now st = saveReminder now (r\<lparr>status := Some s\<rparr>) st"
    using i s s' g by (simp add: updateReminderStatus_def)
  have "getReminder (id_r (r\<lparr>status := Some s\<rparr>)) (snd (saveReminder now (r\<lparr>status := Some s\<rparr>) st))
          = Some (normalizeReminder now (r\<lparr>status := Some s\<rparr>))"
    using v by (rule getReminder_after_save)
  moreover have "fst (saveReminder now (r\<lparr>status := Some s\<rparr>) st) = Inr ()"
    using v by (simp add: saveReminder_valid)
  moreover have "status (normalizeReminder now (r\<lparr>status := Some s\<rparr>)) = Some s"
    using s' by (simp add: normalizeReminder_def)
  ultimately show ?thesis using u i by simp
qed

text \<open>
  Claim C2 says that \<open>updateReminderStatus\<close> succeeds for every stored id and every one of
  the three statuses. It does not: the record it fetched goes back through
  \<open>saveReminder\<close>, which validates it against the current time, so for a stored record
  whose scheduled time has been reached the call ends in an error and the storage value
  is the one from before, whatever the status asked for.
\<close>

theorem updateReminderStatus_overdue_fails:
  assumes "getReminder i st = Some r" and "s \<in> set validStatuses"
    and "num_le (scheduledTime r) now"
  shows "\<exists>e. updateReminderStatus i s now st = (Inl e, st)"
  using assms by (rule status_update_refused_when_due)

theorem updateReminderStatus_overdue_fails_witness:
  "getReminder ''a'' (Some [tea, walk]) = Some tea \<and>
   ''dismissed'' \<in> set validStatuses \<and>
   num_le (scheduledTime tea) 6000 \<and>
   updateReminderStatus ''a'' ''dismissed'' 6000 (Some [tea, walk])
     = (Inl (Error ''Reminder must be scheduled for a future time''), Some [tea, walk])"
proof -
  have g: "getReminder ''a'' (Some [tea, walk]) = Some tea"
    by (simp add: getReminder_def sample_defs)
  have s: "''dismissed'' \<in> set validStatuses" by (simp add: validStatuses_def)
  have p: "num_le (scheduledTime tea) 6000" by (simp add: tea_def)
  have v: "updateReminderStatus ''a'' ''dismissed'' 6000 (Some [tea, walk])
     = (Inl (Error ''Reminder must be scheduled for a future time''), Some [tea, walk])"
    by (simp add: store_defs string_defs sample_defs)
  show ?thesis
    using updateReminderStatus_overdue_fails [OF g s p] g s p v by simp
qed

text \<open>
  Claim C9. The service worker's own status update, given an id that is stored, rewrites
  the first record with that id so that only its status differs and leaves the rest of the
  list as it was; it returns a storage value in every case. For a record whose scheduled
  time has been reached it still does so, where the store's \<open>updateReminderStatus\<close>,
  called with the same id and a valid status, ends in an error.
\<close>

theorem sw_update_frame:
  assumes "i \<in> id_r ` set (getAllReminders st)"
  shows "\<exists>k < length (getAllReminders st).
           id_r (getAllReminders st ! k) = i \<and>
           (\<forall>j < k. id_r (getAllReminders st ! j) \<noteq> i) \<and>
           updateReminderStatus_sw i s st =
             Some ((getAllReminders st)[k := (getAllReminders st ! k)\<lparr>status := Some s\<rparr>]) \<and>
           (i \<noteq> [] \<and> s \<in> set validStatuses \<and> num_le (scheduledTime (getAllReminders st ! k)) now
              \<longrightarrow> (\<exists>e. updateReminderStatus i s now st = (Inl e, st)))"
proof -
  let ?rs = "getAllReminders st"
  let ?P = "\<lambda>r. id_r r = i"
  let ?k = "nat (findIndex ?P ?rs)"
  from assms obtain r where r: "find ?P ?rs = Some r"
    using find_id_present by blast
  then have ge: "0 \<le> findIndex ?P ?rs" and nth: "?rs ! ?k = r"
    using find_findIndex [of ?P ?rs r] by auto
  have lt: "?k < length ?rs" using ge by (rule findIndex_lt)
  have idk: "id_r (?rs ! ?k) = i" using findIndex_nth [of ?P ?rs] ge by simp
  have first: "\<forall>j < ?k. id_r (?rs ! j) \<noteq> i" using findIndex_first [of _ ?P ?rs] by blast
  have upd: "updateReminderStatus_sw i s st = Some (?rs[?k := (?rs ! ?k)\<lparr>status := Some s\<rparr>])"
    using r ge nth by (simp add: updateReminderStatus_sw_def Let_def)
  have shared: "i \<noteq> [] \<and> s \<in> set validStatuses \<and> num_le (scheduledTime (?rs ! ?k)) now
              \<longrightarrow> (\<exists>e. updateReminderStatus i s now st = (Inl e, st))"
  proof (intro impI, elim conjE)
    assume i: "i \<noteq> []" and s: "s \<in> set validStatuses"
      and past: "num_le (scheduledTime (?rs ! ?k)) now"
    have g: "getReminder i st = Some r" using r i by (simp add: getReminder_def)
    show "\<exists>e. updateReminderStatus i s now st = (Inl e, st)"
      using status_update_refused_when_due [OF g s] past nth by simp
  qed
  show ?thesis using lt idk first upd shared by blast
qed

theorem sw_update_frame_witness:
  "''a'' \<in> id_r ` set (getAllReminders (Some [walk, tea])) \<and>
   updateReminderStatus_sw ''a'' ''completed'' (Some [walk, tea])
     = Some [walk, tea\<lparr>status := Some ''completed''\<rparr>] \<and>
   updateReminderStatus ''a'' ''completed'' 6000 (Some [walk, tea])
     = (Inl (Error ''Reminder must be scheduled for a future time''), Some [walk, tea])"
proof -
  have m: "''a'' \<in> id_r ` set (getAllReminders (Some [walk, tea]))"
    by (simp add: sample_defs)
  have u: "updateReminderStatus_sw ''a'' ''completed'' (Some [walk, tea])
     = Some [walk, tea\<lparr>status := Some ''completed''\<rparr>]"
    by (simp add: updateReminderStatus_sw_def sample_defs)
  have v: "updateReminderStatus ''a'' ''completed'' 6000 (Some [walk, tea])
     = (Inl (Error ''Reminder must be scheduled for a future time''), Some [walk, tea])"
    by (simp add: store_defs string_defs sample_defs)
  show ?thesis
    using sw_update_frame [OF m, of "''completed''" 6000] m u v by simp
qed

section \<open>Undo after a dismiss\<close>

lemma handleDismiss_armed:
  "storage_local (handleDismiss 4000 ''a'' armed)
     = Some [tea\<lparr>status := Some ''dismissed''\<rparr>, walk] \<and>
   lastDismissedReminder (handleDismiss 4000 ''a'' armed) = Some tea \<and>
   undoTimeout (handleDismiss 4000 ''a'' armed) \<and>
   messages (handleDismiss 4000 ''a'' armed) = [ToastWithUndo ''Reminder dismissed''] \<and>
   alarms (handleDismiss 4000 ''a'' armed) ''reminder-a-5000'' = None \<and>
   alarms (handleDismiss 4000 ''a'' armed) ''reminder-b-5400'' = Some (Num 5400)"
  by (simp add: handleDismiss_def cancelReminderById_def loadReminders_def intToString_5000
      store_defs string_defs sample_defs armed_def Let_def)

text \<open>
  Claim C3 says that an undo within the window makes the dismissed record active again,
  also when its scheduled time has passed. In that case the code does not: the status
  update is refused by the validation inside \<open>saveReminder\<close>, the handler reports that it
  could not restore the reminder, and the state is otherwise what it was, the record
  still dismissed and no alarm registered.
\<close>

theorem handleUndoDismiss_time_passed:
  assumes l: "lastDismissedReminder w = Some r"
    and g: "getReminder (id_r r) (storage_local w) = Some r'"
    and d: "status r' = Some ''dismissed''"
    and past: "num_le (scheduledTime r') now"
  shows "handleUndoDismiss now w =
           w\<lparr>messages := messages w @ [Toast ''Unable to restore reminder'' ''error'']\<rparr>"
proof -
  have "''active'' \<in> set validStatuses" by (simp add: validStatuses_def)
  from status_update_refused_when_due [OF g this past]
  obtain e where "updateReminderStatus (id_r r) ''active'' now (storage_local w)
                    = (Inl e, storage_local w)" by blast
  then show ?thesis using l by (simp add: handleUndoDismiss_def undoFailed_def Let_def)
qed

theorem handleUndoDismiss_time_passed_witness:
  "lastDismissedReminder (handleDismiss 4000 ''a'' armed) = Some tea \<and>
   getReminder (id_r tea) (storage_local (handleDismiss 4000 ''a'' armed))
     = Some (tea\<lparr>status := Some ''dismissed''\<rparr>) \<and>
   status (tea\<lparr>status := Some ''dismissed''\<rparr>) = Some ''dismissed'' \<and>
   num_le (scheduledTime (tea\<lparr>status := Some ''dismissed''\<rparr>)) 6000 \<and>
   storage_local (handleUndoDismiss 6000 (handleDismiss 4000 ''a'' armed))
     = Some [tea\<lparr>status := Some ''dismissed''\<rparr>, walk] \<and>
   alarms (handleUndoDismiss 6000 (handleDismiss 4000 ''a'' armed)) ''reminder-a-5000'' = None \<and>
   messages (handleUndoDismiss 6000 (handleDismiss 4000 ''a'' armed))
     = [ToastWithUndo ''Reminder dismissed'', Toast ''Unable to restore reminder'' ''error'']"
proof -
  let ?w = "handleDismiss 4000 ''a'' armed"
  have l: "lastDismissedReminder ?w = Some tea" using handleDismiss_armed by simp
  have s: "storage_local ?w = Some [tea\<lparr>status := Some ''dismissed''\<rparr>, walk]"
    using handleDismiss_armed by simp
  have g: "getReminder (id_r tea) (storage_local ?w) = Some (tea\<lparr>status := Some ''dismissed''\<rparr>)"
    unfolding s by (simp add: getReminder_def tea_def)
  have d: "status (tea\<lparr>status := Some ''dismissed''\<rparr>) = Some ''dismissed''" by simp
  have p: "num_le (scheduledTime (tea\<lparr>status := Some ''dismissed''\<rparr>)) 6000"
    by (simp add: tea_def)
  have u: "handleUndoDismiss 6000 ?w =
             ?w\<lparr>messages := messages ?w @ [Toast ''Unable to restore reminder'' ''error'']\<rparr>"
    using l g d p by (rule handleUndoDismiss_time_passed)
  have "storage_local (handleUndoDismiss 6000 ?w) = Some [tea\<lparr>status := Some ''dismissed''\<rparr>, walk]"
    unfolding u using s by simp
  moreover have "alarms (handleUndoDismiss 6000 ?w) ''reminder-a-5000'' = None"
    unfolding u using handleDismiss_armed by simp
  moreover have "messages (handleUndoDismiss 6000 ?w)
     = [ToastWithUndo ''Reminder dismissed'', Toast ''Unable to restore reminder'' ''error'']"
    unfolding u using handleDismiss_armed by simp
  ultimately show ?thesis using l g d p by simp
qed

text \<open>
  The other half of the undo: while the scheduled time is still ahead and the stored
  record passes validation, the record is active again afterwards, an alarm stands under
  the record's key for exactly its scheduled time, and the remembered record is forgotten.
\<close>

lemma handleUndoDismiss_still_future:
  assumes l: "lastDismissedReminder w = Some r"
    and g: "getReminder (id_r r) (storage_local w) = Some r'"
    and v: "validateReminder now (r'\<lparr>status := Some ''active''\<rparr>) = Inr ()"
    and fut: "num_gt (scheduledTime r) now" and nz: "truthy (scheduledTime r)"
  shows "getReminder (id_r r) (storage_local (handleUndoDismiss now w))
           = Some (normalizeReminder now (r'\<lparr>status := Some ''active''\<rparr>)) \<and>
         status (normalizeReminder now (r'\<lparr>status := Some ''active''\<rparr>)) = Some ''active'' \<and>
         alarms (handleUndoDismiss now w) (createAlarmName r) = Some (scheduledTime r) \<and>
         lastDismissedReminder (handleUndoDismiss now w) = None"
proof -
  let ?upd = "updateReminderStatus (id_r r) ''active'' now (storage_local w)"
  let ?r = "r\<lparr>alarmName := Some (''reminder-'' @ id_r r @ ''-'' @ numToString (scheduledTime r))\<rparr>"
  have a: "''active'' \<in> set validStatuses" by (simp add: validStatuses_def)
  note acc = updateReminderStatus_accepted [OF g a v]
  have i: "id_r r \<noteq> []" using getReminder_id [OF g] by simp
  obtain n where n: "scheduledTime r = Num n" "n > now"
    using fut by (cases "scheduledTime r") auto
  have sch: "scheduleReminder now (r\<lparr>alarmName := an\<rparr>) al
               = (Inr (), al(createAlarmName r \<mapsto> scheduledTime r))" for al an
    using i nz n by (simp add: scheduleReminder_def createAlarmName_def Let_def)
  have "handleUndoDismiss now w =
          undoDone (w\<lparr> storage_local := snd ?upd, lastDismissedReminder := Some ?r,
                       alarms := (alarms w)(createAlarmName r \<mapsto> scheduledTime r) \<rparr>)"
    using l acc fut by (simp add: handleUndoDismiss_def Let_def sch)
  then show ?thesis using acc by (simp add: undoDone_def loadReminders_def)
qed

section \<open>Matching a fired alarm by its time\<close>

lemma find_unique:
  assumes "r \<in> set rs" and "P r" and "\<forall>r'\<in>set rs. P r' \<longrightarrow> r' = r"
  shows "find P rs = Some r"
  using assms
proof (induction rs)
  case Nil
  then show ?case by simp
next
  case (Cons x xs)
  show ?case
  proof (cases "P x")
    case True
    then have "x = r" using Cons.prems(3) by simp
    then show ?thesis using True by simp
  next
    case False
    then have "r \<in> set xs" using Cons.prems(1,2) by auto
    moreover have "\<forall>r'\<in>set xs. P r' \<longrightarrow> r' = r" using Cons.prems(3) by simp
    ultimately have "find P xs = Some r" using Cons.IH Cons.prems(2) by blast
    then show ?thesis using False by simp
  qed
qed

lemma find_by_own_id:
  assumes "r \<in> set rs" and "distinct (map id_r rs)"
  shows "find (\<lambda>x. id_r x = id_r r) rs = Some r"
proof -
  have inj: "inj_on id_r (set rs)" using assms(2) by (simp add: distinct_map)
  have "\<forall>r'\<in>set rs. id_r r' = id_r r \<longrightarrow> r' = r"
  proof (intro ballI impI)
    fix r' assume "r' \<in> set rs" and "id_r r' = id_r r"
    then show "r' = r" using inj assms(1) by (meson inj_onD)
  qed
  then show ?thesis
    using find_unique [of r rs "\<lambda>x. id_r x = id_r r"] assms(1) by simp
qed

lemma onAlarm_inactive_step:
  "parseAlarmName name = Some (rid, t) \<Longrightarrow>
   findReminder (getAllReminders (storage_local w)) rid t = Some r \<Longrightarrow>
   status r \<noteq> Some ''active'' \<Longrightarrow>
   onAlarm env name w = w"
  by (auto simp: onAlarm_def Let_def)

lemma parse_zz: "parseAlarmName ''reminder-zz-5400'' = Some (''-zz'', 5400)"
  by (simp add: parseAlarmName_def string_defs)

text \<open>
  Claim C5, as stated, fails: the time-proximity lookup takes the first record within
  1000 ms whatever its status, so a dismissed record that stands before the only active
  record within the tolerance is the one matched, and the handler stops there.
\<close>

theorem onAlarm_fallback_counterexample:
  "parseAlarmName ''reminder-zz-5400'' = Some (''-zz'', 5400) \<and>
   ''-zz'' \<notin> id_r ` set [tea\<lparr>status := Some ''dismissed''\<rparr>, walk] \<and>
   filter (\<lambda>r. status r = Some ''active'' \<and> withinTolerance 5400 r)
      [tea\<lparr>status := Some ''dismissed''\<rparr>, walk] = [walk] \<and>
   onAlarm granted ''reminder-zz-5400'' (page [tea\<lparr>status := Some ''dismissed''\<rparr>, walk])
     = page [tea\<lparr>status := Some ''dismissed''\<rparr>, walk]"
proof -
  let ?rs = "[tea\<lparr>status := Some ''dismissed''\<rparr>, walk]"
  have n: "''-zz'' \<notin> id_r ` set ?rs" by (simp add: tea_def walk_def)
  have f: "filter (\<lambda>r. status r = Some ''active'' \<and> withinTolerance 5400 r) ?rs = [walk]"
    by (simp add: withinTolerance_def tea_def walk_def)
  have st: "getAllReminders (storage_local (page ?rs)) = ?rs" by (simp add: page_def)
  have fr: "findReminder (getAllReminders (storage_local (page ?rs))) ''-zz'' 5400
              = Some (tea\<lparr>status := Some ''dismissed''\<rparr>)"
    unfolding st by (simp add: findReminder_def withinTolerance_def tea_def walk_def)
  have d: "status (tea\<lparr>status := Some ''dismissed''\<rparr>) \<noteq> Some ''active''" by simp
  have o: "onAlarm granted ''reminder-zz-5400'' (page ?rs) = page ?rs"
    using parse_zz fr d by (rule onAlarm_inactive_step)
  show ?thesis using parse_zz n f o by simp
qed

text \<open>
  Claim C5, amended. In a collection with one record per id, when the parsed id of a
  fired alarm is the id of no record and exactly one record lies within 1000 ms of the
  encoded time, and that record is active, the handler matches it: it shows the
  notification for it and sets its status to completed.
\<close>

theorem onAlarm_fallback_match:
  assumes p: "parseAlarmName name = Some (rid, t)"
    and noid: "rid \<notin> id_r ` set (getAllReminders (storage_local w))"
    and mem: "r \<in> set (getAllReminders (storage_local w))"
    and act: "status r = Some ''active''"
    and near: "withinTolerance t r"
    and only: "\<forall>r'\<in>set (getAllReminders (storage_local w)). withinTolerance t r' \<longrightarrow> r' = r"
    and dist: "distinct (map id_r (getAllReminders (storage_local w)))"
  shows "findReminder (getAllReminders (storage_local w)) rid t = Some r \<and>
         (\<exists>k < length (getAllReminders (storage_local w)).
            getAllReminders (storage_local w) ! k = r \<and>
            onAlarm env name w =
              w\<lparr> notifications := notifications w @ showNotification env r,
                 storage_local := Some ((getAllReminders (storage_local w))
                                          [k := r\<lparr>status := Some ''completed''\<rparr>]) \<rparr>)"
proof -
  let ?rs = "getAllReminders (storage_local w)"
  let ?Q = "\<lambda>x. id_r x = id_r r"
  let ?k = "nat (findIndex ?Q ?rs)"
  have "find (\<lambda>x. id_r x = rid) ?rs = None" using noid by (auto simp: find_None_iff)
  moreover have "find (withinTolerance t) ?rs = Some r"
    using mem near only by (rule find_unique)
  ultimately have fr: "findReminder ?rs rid t = Some r" by (simp add: findReminder_def)
  have own: "find ?Q ?rs = Some r" using mem dist by (rule find_by_own_id)
  then have ge: "0 \<le> findIndex ?Q ?rs" and nth: "?rs ! ?k = r"
    using find_findIndex [of ?Q ?rs r] by auto
  have lt: "?k < length ?rs" using ge by (rule findIndex_lt)
  have upd: "updateReminderStatus_sw (id_r r) ''completed'' (storage_local w)
               = Some (?rs[?k := r\<lparr>status := Some ''completed''\<rparr>])"
    using own ge by (simp add: updateReminderStatus_sw_def Let_def)
  have start: "name \<noteq> [] \<and> startsWith name ''reminder-''"
    using p by (auto simp: parseAlarmName_def split: if_splits)
  have nonempty: "?rs \<noteq> []" using mem by auto
  have "onAlarm env name w =
          w\<lparr> notifications := notifications w @ showNotification env r,
             storage_local := Some (?rs[?k := r\<lparr>status := Some ''completed''\<rparr>]) \<rparr>"
    using p fr act start nonempty upd by (simp add: onAlarm_def Let_def)
  with fr lt nth show ?thesis by blast
qed

theorem onAlarm_fallback_match_witness:
  "parseAlarmName ''reminder-zz-5400'' = Some (''-zz'', 5400) \<and>
   ''-zz'' \<notin> id_r ` set (getAllReminders (storage_local (page [nap, walk]))) \<and>
   walk \<in> set (getAllReminders (storage_local (page [nap, walk]))) \<and>
   status walk = Some ''active'' \<and>
   withinTolerance 5400 walk \<and>
   filter (withinTolerance 5400) (getAllReminders (storage_local (page [nap, walk]))) = [walk] \<and>
   distinct (map id_r (getAllReminders (storage_local (page [nap, walk])))) \<and>
   findReminder (getAllReminders (storage_local (page [nap, walk]))) ''-zz'' 5400 = Some walk \<and>
   notifications (onAlarm granted ''reminder-zz-5400'' (page [nap, walk]))
     = [(''reminder-b'', ''walk'')] \<and>
   storage_local (onAlarm granted ''reminder-zz-5400'' (page [nap, walk]))
     = Some [nap, walk\<lparr>status := Some ''completed''\<rparr>]"
proof -
  let ?w = "page [nap, walk]"
  have st: "getAllReminders (storage_local ?w) = [nap, walk]" by (simp add: page_def)
  have n: "''-zz'' \<notin> id_r ` set (getAllReminders (storage_local ?w))"
    unfolding st by (simp add: nap_def walk_def)
  have m: "walk \<in> set (getAllReminders (storage_local ?w))" unfolding st by simp
  have a: "status walk = Some ''active''" by (simp add: walk_def)
  have t: "withinTolerance 5400 walk" by (simp add: withinTolerance_def walk_def)
  have f: "filter (withinTolerance 5400) (getAllReminders (storage_local ?w)) = [walk]"
    unfolding st by (simp add: withinTolerance_def nap_def walk_def)
  have o: "\<forall>r'\<in>set (getAllReminders (storage_local ?w)). withinTolerance 5400 r' \<longrightarrow> r' = walk"
    unfolding st by (simp add: withinTolerance_def nap_def)
  have d: "distinct (map id_r (getAllReminders (storage_local ?w)))"
    unfolding st by (simp add: nap_def walk_def)
  have s: "showNotification granted walk = [(''reminder-b'', ''walk'')]"
    by (simp add: showNotification_def walk_def granted_def)
  have ne: "nap \<noteq> walk" by (simp add: nap_def walk_def)
  from onAlarm_fallback_match [OF parse_zz n m a t o d, of granted]
  obtain k where fr: "findReminder (getAllReminders (storage_local ?w)) ''-zz'' 5400 = Some walk"
    and k: "k < length (getAllReminders (storage_local ?w))"
    and nth: "getAllReminders (storage_local ?w) ! k = walk"
    and run: "onAlarm granted ''reminder-zz-5400'' ?w =
              ?w\<lparr> notifications := notifications ?w @ showNotification granted walk,
                 storage_local := Some ((getAllReminders (storage_local ?w))
                                          [k := walk\<lparr>status := Some ''completed''\<rparr>]) \<rparr>"
    by blast
  have "k = 1" using k nth ne unfolding st by (cases k) auto
  then have "onAlarm granted ''reminder-zz-5400'' ?w =
              ?w\<lparr> notifications := notifications ?w @ [(''reminder-b'', ''walk'')],
                 storage_local := Some [nap, walk\<lparr>status := Some ''completed''\<rparr>] \<rparr>"
    using run unfolding st s by simp
  then have "notifications (onAlarm granted ''reminder-zz-5400'' ?w) = [(''reminder-b'', ''walk'')]"
    and "storage_local (onAlarm granted ''reminder-zz-5400'' ?w)
           = Some [nap, walk\<lparr>status := Some ''completed''\<rparr>]"
    by (simp_all add: page_def)
  then show ?thesis using parse_zz n m a t f d fr by simp
qed

end
